theory Spec2Isabelle
  imports Main "HOL-Library.Sublist"
begin

section \<open>Python values and exceptions\<close>

text \<open>
  The templating engine \<^verbatim>\<open>dompx.py\<close> is embedded as pure functions. An exception
  that leaves a Python function is the \<open>Inl\<close> branch of a result of type \<open>error + 'a\<close>.
  \<open>NotModelled\<close> is not a Python exception: it marks an input on which the model does
  not say what the interpreter or the document library does.
\<close>

datatype error = NameError | SyntaxError | TypeError | ValueError | KeyError | IndexError
  | AttributeError | ImageLoadError | NotModelled

text \<open>
  The values a data mapping can hold: \<open>None\<close>, booleans, unbounded integers, strings,
  tuples, lists and dictionaries, and the function and class objects of the builtins
  module (by name). Floats and user-defined objects are outside the model.
  A string is a list of code points below 256, the Latin-1 range: one \<open>char\<close> is one
  code point.
\<close>

datatype pyval = VNone | VBool bool | VInt int | VStr string | VTuple "pyval list"
  | VList "pyval list" | VDict "(pyval \<times> pyval) list" | VFunction string | VClass string

type_synonym data = "string \<rightharpoonup> pyval"

fun truthy :: "pyval \<Rightarrow> bool" where
  "truthy VNone = False"
| "truthy (VBool b) = b"
| "truthy (VInt i) = (i \<noteq> 0)"
| "truthy (VStr s) = (s \<noteq> [])"
| "truthy (VTuple xs) = (xs \<noteq> [])"
| "truthy (VList xs) = (xs \<noteq> [])"
| "truthy (VDict kvs) = (kvs \<noteq> [])"
| "truthy (VFunction n) = True"
| "truthy (VClass n) = True"

fun is_list :: "pyval \<Rightarrow> bool" where
  "is_list (VList xs) = True"
| "is_list v = False"

subsection \<open>Character classes\<close>

definition lower_char :: "char \<Rightarrow> bool" where
  "lower_char c = (let n = (of_char c :: nat) in 97 \<le> n \<and> n \<le> 122)"

definition upper_char :: "char \<Rightarrow> bool" where
  "upper_char c = (let n = (of_char c :: nat) in 65 \<le> n \<and> n \<le> 90)"

definition digit_char :: "char \<Rightarrow> bool" where
  "digit_char c = (let n = (of_char c :: nat) in 48 \<le> n \<and> n \<le> 57)"

text \<open>The characters of the identifiers that the model reads: ASCII only.\<close>

definition ident_char :: "char \<Rightarrow> bool" where
  "ident_char c = (lower_char c \<or> upper_char c \<or> digit_char c \<or> c = CHR ''_'')"

text \<open>
  The class \<^verbatim>\<open>\w\<close> of the pattern. The pattern is a string pattern, so the class holds
  the underscore and every code point that is alphanumeric in Unicode. Below 256 these
  are the ASCII letters and digits and the Latin-1 letters and numerals: the ordinal
  indicators, the micro sign, the superscript digits, the three fractions, and the
  letters from \<open>0xC0\<close> on without the multiplication and the division sign.
\<close>

definition latin1_word :: "char \<Rightarrow> bool" where
  "latin1_word c =
     (let n = (of_char c :: nat)
      in n = 170 \<or> n = 178 \<or> n = 179 \<or> n = 181 \<or> n = 185 \<or> n = 186 \<or>
         (188 \<le> n \<and> n \<le> 190) \<or> (192 \<le> n \<and> n \<le> 214) \<or>
         (216 \<le> n \<and> n \<le> 246) \<or> 248 \<le> n)"

definition word_char :: "char \<Rightarrow> bool" where
  "word_char c = (ident_char c \<or> latin1_word c)"

subsection \<open>\<^verbatim>\<open>str\<close> and \<^verbatim>\<open>repr\<close>\<close>

fun digits :: "nat \<Rightarrow> string" where
  "digits n =
     (if n < 10 then [''0123456789'' ! n]
      else digits (n div 10) @ [''0123456789'' ! (n mod 10)])"

definition str_int :: "int \<Rightarrow> string" where
  "str_int i = (if i < 0 then CHR ''-'' # digits (nat (- i)) else digits (nat i))"

fun join :: "string \<Rightarrow> string list \<Rightarrow> string" where
  "join sep [] = []"
| "join sep [x] = x"
| "join sep (x # y # ys) = x @ sep @ join sep (y # ys)"

text \<open>
  \<^verbatim>\<open>repr\<close> of a string: double quotes when the string holds a single quote and no
  double quote, single quotes otherwise; the quote and the backslash are escaped, and
  so are the code points that are not printable: the control characters of both
  halves of the range, the no-break space and the soft hyphen.
\<close>

definition repr_char :: "char \<Rightarrow> char \<Rightarrow> string" where
  "repr_char q c =
     (let n = (of_char c :: nat) in
      if c = q \<or> c = CHR 0x5C then [CHR 0x5C, c]
      else if c = CHR 0x09 then [CHR 0x5C, CHR ''t'']
      else if c = CHR 0x0A then [CHR 0x5C, CHR ''n'']
      else if c = CHR 0x0D then [CHR 0x5C, CHR ''r'']
      else if n < 32 \<or> (127 \<le> n \<and> n \<le> 160) \<or> n = 173
        then [CHR 0x5C, CHR ''x'', ''0123456789abcdef'' ! (n div 16), ''0123456789abcdef'' ! (n mod 16)]
      else [c])"

definition repr_str :: "string \<Rightarrow> string" where
  "repr_str s =
     (let q = (if CHR 0x27 \<in> set s \<and> CHR 0x22 \<notin> set s then CHR 0x22 else CHR 0x27)
      in q # concat (map (repr_char q) s) @ [q])"

fun py_repr :: "pyval \<Rightarrow> string" where
  "py_repr VNone = ''None''"
| "py_repr (VBool b) = (if b then ''True'' else ''False'')"
| "py_repr (VInt i) = str_int i"
| "py_repr (VStr s) = repr_str s"
| "py_repr (VTuple xs) =
     ''('' @ join '', '' (map py_repr xs) @ (if length xs = 1 then '','' else []) @ '')''"
| "py_repr (VList xs) = ''['' @ join '', '' (map py_repr xs) @ '']''"
| "py_repr (VDict kvs) =
     ''{'' @ join '', '' (map (\<lambda>kv. py_repr (fst kv) @ '': '' @ py_repr (snd kv)) kvs) @ ''}''"
| "py_repr (VFunction n) = ''<built-in function '' @ n @ ''>''"
| "py_repr (VClass n) = ''<class '' @ [CHR 0x27] @ n @ [CHR 0x27] @ ''>''"

definition py_str :: "pyval \<Rightarrow> string" where
  "py_str v = (case v of VStr s \<Rightarrow> s | _ \<Rightarrow> py_repr v)"

subsection \<open>\<^verbatim>\<open>len\<close>, iteration and subscription\<close>

definition py_len :: "pyval \<Rightarrow> error + nat" where
  "py_len v =
     (case v of
        VStr s \<Rightarrow> Inr (length s)
      | VTuple xs \<Rightarrow> Inr (length xs)
      | VList xs \<Rightarrow> Inr (length xs)
      | VDict kvs \<Rightarrow> Inr (length kvs)
      | _ \<Rightarrow> Inl TypeError)"

definition py_iter :: "pyval \<Rightarrow> error + pyval list" where
  "py_iter v =
     (case v of
        VStr s \<Rightarrow> Inr (map (\<lambda>c. VStr [c]) s)
      | VTuple xs \<Rightarrow> Inr xs
      | VList xs \<Rightarrow> Inr xs
      | VDict kvs \<Rightarrow> Inr (map fst kvs)
      | _ \<Rightarrow> Inl TypeError)"

text \<open>A subscript is an integer or a string: the literals of the modelled expressions.\<close>

datatype subscript = SInt int | SStr string

definition py_index :: "'a list \<Rightarrow> int \<Rightarrow> error + 'a" where
  "py_index xs i =
     (let n = int (length xs); j = (if i < 0 then i + n else i)
      in if 0 \<le> j \<and> j < n then Inr (xs ! nat j) else Inl IndexError)"

fun key_eq :: "pyval \<Rightarrow> subscript \<Rightarrow> bool" where
  "key_eq (VInt i) (SInt j) = (i = j)"
| "key_eq (VBool b) (SInt j) = (j = (if b then 1 else 0))"
| "key_eq (VStr s) (SStr t) = (s = t)"
| "key_eq a k = False"

text \<open>
  \<^verbatim>\<open>v[k]\<close>. Subscripting a class is left open: \<^verbatim>\<open>list[0]\<close> is an error before
  Python 3.9 and a generic alias from then on.
\<close>

definition py_getitem :: "pyval \<Rightarrow> subscript \<Rightarrow> error + pyval" where
  "py_getitem v k =
     (case v of
        VStr s \<Rightarrow>
          (case k of
             SInt i \<Rightarrow> (case py_index s i of Inl e \<Rightarrow> Inl e | Inr c \<Rightarrow> Inr (VStr [c]))
           | SStr t \<Rightarrow> Inl TypeError)
      | VTuple xs \<Rightarrow> (case k of SInt i \<Rightarrow> py_index xs i | SStr t \<Rightarrow> Inl TypeError)
      | VList xs \<Rightarrow> (case k of SInt i \<Rightarrow> py_index xs i | SStr t \<Rightarrow> Inl TypeError)
      | VDict kvs \<Rightarrow>
          (case find (\<lambda>kv. key_eq (fst kv) k) kvs of
             None \<Rightarrow> Inl KeyError
           | Some kv \<Rightarrow> Inr (snd kv))
      | VClass n \<Rightarrow> Inl NotModelled
      | _ \<Rightarrow> Inl TypeError)"

section \<open>String replacement\<close>

text \<open>
  \<^verbatim>\<open>s.replace(old, new)\<close>: one scan from the left that rewrites every occurrence of
  \<open>old\<close> it meets and resumes after it. An empty \<open>old\<close> matches between all characters.
\<close>

fun replace_scan :: "string \<Rightarrow> string \<Rightarrow> string \<Rightarrow> string" where
  "replace_scan old new [] = []"
| "replace_scan old new (c # s) =
     (if prefix old (c # s) then new @ replace_scan old new (drop (length old - 1) s)
      else c # replace_scan old new s)"

definition py_replace :: "string \<Rightarrow> string \<Rightarrow> string \<Rightarrow> string" where
  "py_replace s old new =
     (if old = [] then new @ concat (map (\<lambda>c. c # new) s) else replace_scan old new s)"

text \<open>\<^verbatim>\<open>s.strip('{}')\<close>: braces are removed from both ends.\<close>

definition brace :: "char \<Rightarrow> bool" where
  "brace c = (c = CHR ''{'' \<or> c = CHR ''}'')"

definition strip_braces :: "string \<Rightarrow> string" where
  "strip_braces s = rev (dropWhile brace (rev (dropWhile brace s)))"

section \<open>Token grammar\<close>

text \<open>
  The pattern that \<^verbatim>\<open>compile\<close> builds and hands to \<^verbatim>\<open>domp\<close>: the marker \<^verbatim>\<open>@\<close>, an
  optional opening brace, one or more characters of the class below, an optional
  closing brace, and optionally \<^verbatim>\<open>!\<close> with one or more lower-case letters. Every part
  after the class is optional and greedy, so a match never backtracks into the class.
  \<open>match_token\<close> matches at the start of its argument and returns the two groups and the
  length of the match; an absent modifier group is the empty string, as
  \<^verbatim>\<open>findall\<close> reports it.
\<close>

definition expr_char :: "char \<Rightarrow> bool" where
  "expr_char c =
     (word_char c \<or>
      c \<in> set [CHR ''.'', CHR ''['', CHR '']'', CHR 0x27, CHR 0x22, CHR ''('', CHR '')''])"

definition match_token :: "string \<Rightarrow> (string \<times> string \<times> nat) option" where
  "match_token s =
     (case s of
        [] \<Rightarrow> None
      | c # s1 \<Rightarrow>
          if c \<noteq> CHR ''@'' then None
          else
            let ob = (if take 1 s1 = ''{'' then ''{'' else []);
                s2 = drop (length ob) s1;
                body = takeWhile expr_char s2;
                s3 = dropWhile expr_char s2;
                cb = (if take 1 s3 = ''}'' then ''}'' else []);
                s4 = drop (length cb) s3;
                letters = (if take 1 s4 = ''!'' then takeWhile lower_char (drop 1 s4) else []);
                m = (if letters = [] then [] else CHR ''!'' # letters);
                expr = CHR ''@'' # ob @ body @ cb
            in if body = [] then None else Some (expr, m, length expr + length m))"

text \<open>
  \<^verbatim>\<open>token.findall(text)\<close>: the matches from left to right, each search resuming where
  the previous match ended. The counter is the number of characters of the current
  match still to be passed over.
\<close>

fun scan :: "nat \<Rightarrow> string \<Rightarrow> (string \<times> string) list" where
  "scan k [] = []"
| "scan (Suc k) (c # s) = scan k s"
| "scan 0 (c # s) =
     (case match_token (c # s) of
        None \<Rightarrow> scan 0 s
      | Some (expr, m, n) \<Rightarrow> (expr, m) # scan (n - 1) s)"

definition findall :: "string \<Rightarrow> (string \<times> string) list" where
  "findall s = scan 0 s"

text \<open>\<^verbatim>\<open>token.search(text)\<close>, read as a truth value.\<close>

fun search :: "string \<Rightarrow> bool" where
  "search [] = False"
| "search (c # s) = (match_token (c # s) \<noteq> None \<or> search s)"

section \<open>Expression evaluation\<close>

text \<open>
  \<^verbatim>\<open>compile_expr\<close> calls the interpreter's \<^verbatim>\<open>eval(source, {}, data)\<close>. The model
  covers the data-access expressions: a name of ASCII letters, digits and underscores,
  followed by any number of subscripts, each an integer literal or a string literal
  without escapes. Every other source text is \<open>NotModelled\<close>.

  A name is looked up in the local namespace, which is the data mapping, then in the
  global namespace, then in the builtins module. The global namespace is the empty
  dictionary of the call, to which the interpreter adds the entry \<^verbatim>\<open>__builtins__\<close>, so
  the names of the builtins module stay visible. The tables below are the builtins of
  CPython 3.8, the first version that accepts the source; names whose binding depends
  on the version or on how the interpreter was started are listed apart and not
  modelled.
\<close>

definition py_keywords :: "string list" where
  "py_keywords =
     [''and'', ''as'', ''assert'', ''async'', ''await'', ''break'', ''class'', ''continue'',
      ''def'', ''del'', ''elif'', ''else'', ''except'', ''finally'', ''for'', ''from'',
      ''global'', ''if'', ''import'', ''in'', ''is'', ''lambda'', ''nonlocal'', ''not'', ''or'',
      ''pass'', ''raise'', ''return'', ''try'', ''while'', ''with'', ''yield'']"

definition builtin_functions :: "string list" where
  "builtin_functions =
     [''abs'', ''all'', ''any'', ''ascii'', ''bin'', ''breakpoint'', ''callable'', ''chr'',
      ''compile'', ''delattr'', ''dir'', ''divmod'', ''eval'', ''exec'', ''format'', ''getattr'',
      ''globals'', ''hasattr'', ''hash'', ''hex'', ''id'', ''input'', ''isinstance'',
      ''issubclass'', ''iter'', ''len'', ''locals'', ''max'', ''min'', ''next'', ''oct'', ''open'',
      ''ord'', ''pow'', ''print'', ''repr'', ''round'', ''setattr'', ''sorted'', ''sum'', ''vars'',
      ''__import__'', ''__build_class__'']"

definition builtin_classes :: "string list" where
  "builtin_classes =
     [''bool'', ''bytearray'', ''bytes'', ''classmethod'', ''complex'', ''dict'', ''enumerate'',
      ''filter'', ''float'', ''frozenset'', ''int'', ''list'', ''map'', ''memoryview'', ''object'',
      ''property'', ''range'', ''reversed'', ''set'', ''slice'', ''staticmethod'', ''str'',
      ''super'', ''tuple'', ''type'', ''zip'',
      ''ArithmeticError'', ''AssertionError'', ''AttributeError'', ''BaseException'',
      ''BlockingIOError'', ''BrokenPipeError'', ''BufferError'', ''BytesWarning'',
      ''ChildProcessError'', ''ConnectionAbortedError'', ''ConnectionError'',
      ''ConnectionRefusedError'', ''ConnectionResetError'', ''DeprecationWarning'',
      ''EOFError'', ''Exception'', ''FileExistsError'', ''FileNotFoundError'',
      ''FloatingPointError'', ''FutureWarning'', ''GeneratorExit'', ''ImportError'',
      ''ImportWarning'', ''IndentationError'', ''IndexError'', ''InterruptedError'',
      ''IsADirectoryError'', ''KeyError'', ''KeyboardInterrupt'', ''LookupError'',
      ''MemoryError'', ''ModuleNotFoundError'', ''NameError'', ''NotADirectoryError'',
      ''NotImplementedError'', ''OSError'', ''OverflowError'', ''PendingDeprecationWarning'',
      ''PermissionError'', ''ProcessLookupError'', ''RecursionError'', ''ReferenceError'',
      ''ResourceWarning'', ''RuntimeError'', ''RuntimeWarning'', ''StopAsyncIteration'',
      ''StopIteration'', ''SyntaxError'', ''SyntaxWarning'', ''SystemError'', ''SystemExit'',
      ''TabError'', ''TimeoutError'', ''TypeError'', ''UnboundLocalError'',
      ''UnicodeDecodeError'', ''UnicodeEncodeError'', ''UnicodeError'',
      ''UnicodeTranslateError'', ''UnicodeWarning'', ''UserWarning'', ''ValueError'',
      ''Warning'', ''ZeroDivisionError'']"

text \<open>
  Names that are bound, or bound in some versions and start-up modes only, to objects
  outside the model.
\<close>

definition builtin_other :: "string list" where
  "builtin_other =
     [''__builtins__'', ''__doc__'', ''__loader__'', ''__name__'', ''__package__'', ''__spec__'',
      ''Ellipsis'', ''NotImplemented'', ''copyright'', ''credits'', ''exit'', ''quit'', ''help'',
      ''license'', ''aiter'', ''anext'', ''EncodingWarning'', ''BaseExceptionGroup'',
      ''ExceptionGroup'', ''PythonFinalizationError'', ''WindowsError'', ''_'',
      ''_IncompleteInputError'']"

definition lookup_builtin :: "string \<Rightarrow> error + pyval" where
  "lookup_builtin n =
     (if n \<in> set builtin_functions then Inr (VFunction n)
      else if n \<in> set builtin_classes then Inr (VClass n)
      else if n = ''IOError'' \<or> n = ''EnvironmentError'' then Inr (VClass ''OSError'')
      else if n \<in> set builtin_other then Inl NotModelled
      else Inl NameError)"

text \<open>
  The three constants are keywords and \<^verbatim>\<open>__debug__\<close> is folded by the compiler: a
  binding of the data mapping cannot shadow them.
\<close>

definition lookup_name :: "string \<Rightarrow> data \<Rightarrow> error + pyval" where
  "lookup_name n data =
     (if n = ''None'' then Inr VNone
      else if n = ''True'' then Inr (VBool True)
      else if n = ''False'' then Inr (VBool False)
      else if n = ''__debug__'' then Inl NotModelled
      else (case data n of Some v \<Rightarrow> Inr v | None \<Rightarrow> lookup_builtin n))"

definition decimal :: "string \<Rightarrow> int" where
  "decimal ds = foldl (\<lambda>n c. 10 * n + (int (of_char c) - 48)) 0 ds"

definition string_body_char :: "char \<Rightarrow> char \<Rightarrow> bool" where
  "string_body_char q c = (c \<noteq> q \<and> c \<noteq> CHR 0x5C \<and> c \<noteq> CHR 0x0A)"

text \<open>One subscript at the start of the text: the literal and the text after it.\<close>

definition parse_subscript :: "string \<Rightarrow> (subscript \<times> string) option" where
  "parse_subscript s =
     (case s of
        [] \<Rightarrow> None
      | c # s1 \<Rightarrow>
          if c \<noteq> CHR ''['' then None
          else
            (case s1 of
               [] \<Rightarrow> None
             | q # s2 \<Rightarrow>
                 if q = CHR 0x27 \<or> q = CHR 0x22 then
                   (let body = takeWhile (string_body_char q) s2;
                        s3 = dropWhile (string_body_char q) s2
                    in if take 2 s3 = [q, CHR '']''] then Some (SStr body, drop 2 s3) else None)
                 else if digit_char q then
                   (let ds = takeWhile digit_char s1;
                        s3 = dropWhile digit_char s1
                    in if take 1 s3 = '']'' \<and> (ds = ''0'' \<or> q \<noteq> CHR ''0'')
                       then Some (SInt (decimal ds), drop 1 s3) else None)
                 else None))"

function parse_trailers :: "string \<Rightarrow> subscript list option" where
  "parse_trailers s =
     (if s = [] then Some []
      else
        (case parse_subscript s of
           None \<Rightarrow> None
         | Some (k, rest) \<Rightarrow>
             (case parse_trailers rest of None \<Rightarrow> None | Some ks \<Rightarrow> Some (k # ks))))"
  by pat_completeness auto
termination
proof (relation "measure length")
  show "wf (measure length)" by simp
next
  fix s :: string and x2 k rest
  assume "s \<noteq> []" and "parse_subscript s = Some x2" and "(k, rest) = x2"
  then have p: "parse_subscript s = Some (k, rest)" by simp
  have "length rest < length s"
    using p length_dropWhile_le [of "string_body_char (hd (tl s))" "tl (tl s)"]
      length_dropWhile_le [of digit_char "tl s"]
    by (auto simp: parse_subscript_def Let_def split: list.splits if_splits)
  then show "(rest, s) \<in> measure length" by simp
qed

declare parse_trailers.simps [simp del]

fun subscripts :: "pyval \<Rightarrow> subscript list \<Rightarrow> error + pyval" where
  "subscripts v [] = Inr v"
| "subscripts v (k # ks) =
     (case py_getitem v k of Inl e \<Rightarrow> Inl e | Inr w \<Rightarrow> subscripts w ks)"

text \<open>
  A keyword that stands alone is a syntax error; a keyword followed by brackets can be
  an operator applied to a list display, which is outside the fragment.
\<close>

definition py_eval :: "string \<Rightarrow> data \<Rightarrow> error + pyval" where
  "py_eval src data =
     (let name = takeWhile ident_char src;
          rest = dropWhile ident_char src
      in if name = [] \<or> digit_char (hd name) then Inl NotModelled
         else
           (case parse_trailers rest of
              None \<Rightarrow> Inl NotModelled
            | Some ks \<Rightarrow>
                if name \<in> set py_keywords then (if ks = [] then Inl SyntaxError else Inl NotModelled)
                else
                  (case lookup_name name data of
                     Inl e \<Rightarrow> Inl e
                   | Inr v \<Rightarrow> subscripts v ks)))"

text \<open>
  \<^verbatim>\<open>compile_expr\<close>: the marker is dropped, braces are stripped, the rest is evaluated.
  Only \<open>NameError\<close> is caught, and then the expression text itself is the result.
\<close>

definition compile_expr :: "string \<Rightarrow> data \<Rightarrow> error + pyval" where
  "compile_expr expr data =
     (case py_eval (strip_braces (drop 1 expr)) data of
        Inl e \<Rightarrow> (if e = NameError then Inr (VStr expr) else Inl e)
      | Inr val \<Rightarrow> Inr val)"

section \<open>The document\<close>

text \<open>
  The document library's objects, as far as the engine reaches them, for a well-formed
  document. A run has its text, the pictures embedded in it, and the tables that were
  spliced in right after it, nearest first. A table has its style, its number of grid
  columns and its cells in row-major order, which is how the library addresses them.
  A cell has its own paragraphs and its own nested tables. A paragraph is the list of
  its runs.
\<close>

record picture =
  pic_path :: string
  pic_width :: "int option"
  pic_height :: "int option"

datatype run = Run (run_text: string) (pictures: "picture list") (following: "table list")
and table = Table (style: "string option") (column_count: nat) (cells: "cell list")
and cell = Cell (cell_paragraphs: "run list list") (cell_tables: "table list")

type_synonym para = "run list"

text \<open>
  The document itself: the paragraphs and tables of the body; the sections, each with
  a header and a footer that have paragraphs and tables of their own, and with the
  page width and the two side margins, any of which the file may leave out; and the
  styles, as the lookup \<^verbatim>\<open>doc.styles[name]\<close> answers: the type of the style found
  under the name, or nothing.
\<close>

record story =
  story_paragraphs :: "para list"
  story_tables :: "table list"

record doc_section =
  sec_header :: story
  sec_footer :: story
  page_width :: "int option"
  left_margin :: "int option"
  right_margin :: "int option"

datatype style_type = Character_style | List_style | Paragraph_style | Table_style

record document =
  doc_paragraphs :: "para list"
  doc_tables :: "table list"
  doc_sections :: "doc_section list"
  doc_styles :: "string \<rightharpoonup> style_type"

definition paragraph_text :: "para \<Rightarrow> string" where
  "paragraph_text p = concat (map run_text p)"

text \<open>
  Assigning \<^verbatim>\<open>run.text\<close> replaces the whole content of the run element, so pictures
  embedded earlier go; tables after the run are its siblings and stay. The library
  writes a tab as a tab element, a line feed and a carriage return as a break element,
  and every other stretch of characters as a text element, which the XML library
  refuses with \<open>ValueError\<close> when it holds a control character. Reading the text back
  gives a line feed for every break: \<open>run_text\<close> is the text as it is read.
\<close>

definition xml_char :: "char \<Rightarrow> bool" where
  "xml_char c = (let n = (of_char c :: nat) in n = 9 \<or> n = 10 \<or> n = 13 \<or> 32 \<le> n)"

definition xml_text :: "string \<Rightarrow> bool" where
  "xml_text s = list_all xml_char s"

definition read_back :: "string \<Rightarrow> string" where
  "read_back s = map (\<lambda>c. if c = CHR 0x0D then CHR 0x0A else c) s"

definition set_text :: "run \<Rightarrow> string \<Rightarrow> error + run" where
  "set_text r t = (if xml_text t then Inr (Run (read_back t) [] (following r)) else Inl ValueError)"

text \<open>
  \<^verbatim>\<open>Mm(x)\<close> is the length \<^verbatim>\<open>int(x * 36000)\<close>. On a string the product is a
  repetition, and whether \<^verbatim>\<open>int\<close> accepts it depends on the version; that case is
  left open.
\<close>

definition Mm :: "pyval \<Rightarrow> error + int" where
  "Mm v =
     (case v of
        VInt n \<Rightarrow> Inr (n * 36000)
      | VBool b \<Rightarrow> Inr (if b then 36000 else 0)
      | VStr s \<Rightarrow> Inl NotModelled
      | _ \<Rightarrow> Inl TypeError)"

text \<open>The argument \<^verbatim>\<open>width and Mm(width)\<close>.\<close>

definition dimension :: "pyval \<Rightarrow> error + pyval" where
  "dimension w =
     (if truthy w then (case Mm w of Inl e \<Rightarrow> Inl e | Inr n \<Rightarrow> Inr (VInt n)) else Inr w)"

text \<open>
  \<^verbatim>\<open>run.add_picture(path, width, height)\<close>. \<open>images\<close> are the paths that the library
  can open and read as an image at the time of the call. A path that is not a string
  is taken for a stream and fails on its first use. A dimension is \<open>None\<close> or a
  length; other values are outside the model. With no dimension the picture has its
  natural size. With both, each must be an extent the file format takes, from 0 to
  27273042316900, or the library raises \<open>ValueError\<close>. With one, the library computes
  the other in floating point from the natural size, which the model leaves open.
  A picture is recorded with the arguments of the call.
\<close>

fun length_arg :: "pyval \<Rightarrow> int option option" where
  "length_arg VNone = Some None"
| "length_arg (VInt n) = Some (Some n)"
| "length_arg v = None"

definition extent_ok :: "int \<Rightarrow> bool" where
  "extent_ok n = (0 \<le> n \<and> n \<le> 27273042316900)"

definition add_picture :: "string list \<Rightarrow> run \<Rightarrow> pyval \<Rightarrow> pyval \<Rightarrow> pyval \<Rightarrow> error + run" where
  "add_picture images r path width height =
     (case path of
        VStr p \<Rightarrow>
          if p \<notin> set images then Inl ImageLoadError
          else
            (case (length_arg width, length_arg height) of
               (Some None, Some None) \<Rightarrow>
                 Inr (Run (run_text r)
                        (pictures r @ [\<lparr>pic_path = p, pic_width = None, pic_height = None\<rparr>])
                        (following r))
             | (Some (Some w), Some (Some h)) \<Rightarrow>
                 if extent_ok w \<and> extent_ok h
                 then Inr (Run (run_text r)
                        (pictures r @ [\<lparr>pic_path = p, pic_width = Some w, pic_height = Some h\<rparr>])
                        (following r))
                 else Inl ValueError
             | _ \<Rightarrow> Inl NotModelled)
      | _ \<Rightarrow> Inl AttributeError)"

text \<open>
  \<^verbatim>\<open>doc.add_table(rows, cols)\<close>. The library first takes the width of the text block
  from the last section, page width less the two margins, which raises \<open>IndexError\<close>
  when the document has no section and \<open>TypeError\<close> when one of the three is left out.
  Every cell of the new table holds one empty paragraph.
\<close>

definition block_width :: "document \<Rightarrow> error + int" where
  "block_width doc =
     (case doc_sections doc of
        [] \<Rightarrow> Inl IndexError
      | s # ss \<Rightarrow>
          (case (page_width (last (s # ss)), left_margin (last (s # ss)),
                 right_margin (last (s # ss))) of
             (Some w, Some l, Some r) \<Rightarrow> Inr (w - l - r)
           | _ \<Rightarrow> Inl TypeError))"

definition add_table :: "document \<Rightarrow> nat \<Rightarrow> nat \<Rightarrow> error + table" where
  "add_table doc rows cols =
     (case block_width doc of
        Inl e \<Rightarrow> Inl e
      | Inr w \<Rightarrow> Inr (Table None cols (replicate (rows * cols) (Cell [[]] []))))"

text \<open>
  \<^verbatim>\<open>table.style = name\<close>: the name is looked up among the document's styles, which
  raises \<open>KeyError\<close> when there is no such style and \<open>ValueError\<close> when the style found is
  not a table style.
\<close>

definition set_style :: "document \<Rightarrow> table \<Rightarrow> string \<Rightarrow> error + table" where
  "set_style doc t name =
     (case doc_styles doc name of
        None \<Rightarrow> Inl KeyError
      | Some ty \<Rightarrow>
          if ty = Table_style then Inr (Table (Some name) (column_count t) (cells t))
          else Inl ValueError)"

text \<open>
  \<^verbatim>\<open>table.cell(r, c).text = s\<close>. The cells are addressed as one row-major list.
  Assigning the text leaves the cell with one paragraph of one run, whose text is
  assigned as a run's text is.
\<close>

definition set_cell_text :: "table \<Rightarrow> nat \<Rightarrow> nat \<Rightarrow> string \<Rightarrow> error + table" where
  "set_cell_text t ridx cidx s =
     (let i = cidx + ridx * column_count t
      in if i < length (cells t)
         then
           (if xml_text s
            then Inr (Table (style t) (column_count t)
                        ((cells t)[i := Cell [[Run (read_back s) [] []]] []]))
            else Inl ValueError)
         else Inl IndexError)"

text \<open>\<^verbatim>\<open>run.element.addnext(table._tbl)\<close>: the table becomes the run's next sibling.\<close>

definition addnext :: "run \<Rightarrow> table \<Rightarrow> run" where
  "addnext r t = Run (run_text r) (pictures r) (t # following r)"

section \<open>The paragraph walker\<close>

text \<open>
  The cells of a column, as the library lists them: the entries of the row-major cell
  list at the indices \<^verbatim>\<open>range(col, len(cells), column_count)\<close>.
\<close>

definition py_range :: "nat \<Rightarrow> nat \<Rightarrow> nat \<Rightarrow> nat list" where
  "py_range start stop step =
     map (\<lambda>k. start + k * step) [0..<(stop - start + step - 1) div step]"

definition column_cells :: "table \<Rightarrow> nat \<Rightarrow> cell list" where
  "column_cells t col =
     map (\<lambda>i. cells t ! i) (py_range col (length (cells t)) (column_count t))"

lemma py_range_bound: "i \<in> set (py_range start stop step) \<Longrightarrow> i < stop"
proof -
  assume "i \<in> set (py_range start stop step)"
  then have "\<exists>k. k < (stop - start + step - 1) div step \<and> i = start + k * step"
    unfolding py_range_def by (simp add: image_iff Bex_def)
  then obtain k where k: "k < (stop - start + step - 1) div step"
    and i: "i = start + k * step"
    by blast
  from k have step: "0 < step" by (cases step) simp_all
  from k have "Suc k \<le> (stop - start + step - 1) div step" by simp
  with step have "Suc k * step \<le> stop - start + step - 1"
    by (simp only: less_eq_div_iff_mult_less_eq)
  with step have "k * step < stop - start" by simp
  with i show ?thesis by simp
qed

lemma column_cells_subset: "c \<in> set (column_cells t col) \<Longrightarrow> c \<in> set (cells t)"
  by (auto simp: column_cells_def dest: py_range_bound)

text \<open>
  \<^verbatim>\<open>table_paragraphs\<close>: for each table, for each column, for each cell of the column,
  the cell's paragraphs and then the paragraphs of the tables nested in the cell. The
  generator is read as the list of what it yields.
\<close>

function table_paragraphs :: "table list \<Rightarrow> para list" where
  "table_paragraphs tables =
     concat (map (\<lambda>t.
       concat (map (\<lambda>col.
         concat (map (\<lambda>c. cell_paragraphs c @ table_paragraphs (cell_tables c))
           (column_cells t col)))
         [0..<column_count t]))
       tables)"
  by pat_completeness auto
termination
proof (relation "measure (size_list size)")
  show "wf (measure (size_list size))" by simp
next
  fix tables :: "table list" and t col c
  assume t: "t \<in> set tables" and c: "c \<in> set (column_cells t col)"
  from c have "c \<in> set (cells t)" by (rule column_cells_subset)
  then have "size c \<le> size_list size (cells t)" by (simp add: size_list_estimation')
  moreover have "size_list size (cells t) < size t" by (cases t) simp
  moreover from t have "size t \<le> size_list size tables" by (simp add: size_list_estimation')
  moreover have "size_list size (cell_tables c) < size c" by (cases c) simp
  ultimately show "(cell_tables c, tables) \<in> measure (size_list size)" by simp
qed

declare table_paragraphs.simps [simp del]

text \<open>
  \<^verbatim>\<open>paragraphs\<close>: what the generator yields, and the exception that ends it, if any.
  \<^verbatim>\<open>document.sections[0]\<close> is first evaluated after the body has been walked, and
  raises when the document has no section.
\<close>

definition paragraphs :: "document \<Rightarrow> para list \<times> error option" where
  "paragraphs d =
     (let body = doc_paragraphs d @ table_paragraphs (doc_tables d)
      in case doc_sections d of
           [] \<Rightarrow> (body, Some IndexError)
         | s # ss \<Rightarrow>
             (body @ story_paragraphs (sec_header s) @ table_paragraphs (story_tables (sec_header s))
                @ story_paragraphs (sec_footer s) @ table_paragraphs (story_tables (sec_footer s)),
              None))"

section \<open>Modifier handlers\<close>

text \<open>
  A handler is called with the document, the run, the two groups of the match and the
  data mapping, and changes the run in place; the model returns the run as the call
  leaves it. Only \<^verbatim>\<open>tbl\<close> uses the document, to create the table and to find the
  style: the library appends the new table to the document body and \<^verbatim>\<open>addnext\<close> then
  moves that element next to the run, so the model builds the table as a value and the
  handlers return no document. \<open>images\<close> is what \<open>add_picture\<close> can load.
\<close>

definition replace :: "run \<Rightarrow> string \<Rightarrow> string \<Rightarrow> data \<Rightarrow> error + run" where
  "replace r expr modif data =
     (case compile_expr expr data of
        Inl e \<Rightarrow> Inl e
      | Inr v \<Rightarrow> set_text r (py_replace (run_text r) (expr @ modif) (py_str v)))"

definition img :: "string list \<Rightarrow> run \<Rightarrow> string \<Rightarrow> string \<Rightarrow> data \<Rightarrow> error + run" where
  "img images r expr modif data =
     (case set_text r (py_replace (run_text r) (expr @ modif) []) of
        Inl e \<Rightarrow> Inl e
      | Inr r1 \<Rightarrow>
          (case compile_expr expr data of
             Inl e \<Rightarrow> Inl e
           | Inr picture \<Rightarrow>
               if \<not> truthy picture then Inr r1
               else
                 (case picture of
                    VStr p \<Rightarrow> add_picture images r1 picture VNone VNone
                  | VTuple xs \<Rightarrow>
                      (case xs of
                         [path, width, height] \<Rightarrow>
                           (case dimension width of
                              Inl e \<Rightarrow> Inl e
                            | Inr w \<Rightarrow>
                                (case dimension height of
                                   Inl e \<Rightarrow> Inl e
                                 | Inr h \<Rightarrow> add_picture images r1 path w h))
                       | _ \<Rightarrow> Inl ValueError)
                  | _ \<Rightarrow> Inr r1)))"

text \<open>The two loops that populate the table, with the counters of \<^verbatim>\<open>enumerate\<close>.\<close>

fun fill_row :: "table \<Rightarrow> nat \<Rightarrow> nat \<Rightarrow> pyval list \<Rightarrow> error + table" where
  "fill_row t ridx cidx [] = Inr t"
| "fill_row t ridx cidx (c # cs) =
     (case set_cell_text t ridx cidx (py_str c) of
        Inl e \<Rightarrow> Inl e
      | Inr t' \<Rightarrow> fill_row t' ridx (Suc cidx) cs)"

fun fill_rows :: "table \<Rightarrow> nat \<Rightarrow> pyval list \<Rightarrow> error + table" where
  "fill_rows t ridx [] = Inr t"
| "fill_rows t ridx (row # rows) =
     (case py_iter row of
        Inl e \<Rightarrow> Inl e
      | Inr cs \<Rightarrow>
          (case fill_row t ridx 0 cs of
             Inl e \<Rightarrow> Inl e
           | Inr t' \<Rightarrow> fill_rows t' (Suc ridx) rows))"

text \<open>
  The condition of the early return,
  \<^verbatim>\<open>not isinstance(matrix, list) and not isinstance(matrix[0], list)\<close>: the second
  operand is evaluated only when the first holds.
\<close>

definition not_matrix :: "pyval \<Rightarrow> error + bool" where
  "not_matrix matrix =
     (if is_list matrix then Inr False
      else
        (case py_getitem matrix (SInt 0) of
           Inl e \<Rightarrow> Inl e
         | Inr first \<Rightarrow> Inr (\<not> is_list first)))"

text \<open>
  The table as it is when \<^verbatim>\<open>addnext\<close> is reached: created with the two lengths as
  its dimensions, given the grid style, and populated.
\<close>

definition new_table :: "document \<Rightarrow> pyval \<Rightarrow> error + table" where
  "new_table doc matrix =
     (case py_len matrix of
        Inl e \<Rightarrow> Inl e
      | Inr nrows \<Rightarrow>
          (case py_getitem matrix (SInt 0) of
             Inl e \<Rightarrow> Inl e
           | Inr first \<Rightarrow>
               (case py_len first of
                  Inl e \<Rightarrow> Inl e
                | Inr ncols \<Rightarrow>
                    (case add_table doc nrows ncols of
                       Inl e \<Rightarrow> Inl e
                     | Inr t0 \<Rightarrow>
                         (case set_style doc t0 ''Table Grid'' of
                            Inl e \<Rightarrow> Inl e
                          | Inr t1 \<Rightarrow>
                              (case py_iter matrix of
                                 Inl e \<Rightarrow> Inl e
                               | Inr rows \<Rightarrow> fill_rows t1 0 rows))))))"

definition tbl :: "document \<Rightarrow> run \<Rightarrow> string \<Rightarrow> string \<Rightarrow> data \<Rightarrow> error + run" where
  "tbl doc r expr modif data =
     (case set_text r (py_replace (run_text r) (expr @ modif) []) of
        Inl e \<Rightarrow> Inl e
      | Inr r1 \<Rightarrow>
          (case compile_expr expr data of
             Inl e \<Rightarrow> Inl e
           | Inr matrix \<Rightarrow>
               if \<not> truthy matrix then Inr r1
               else
                 (case not_matrix matrix of
                    Inl e \<Rightarrow> Inl e
                  | Inr stop \<Rightarrow>
                      if stop then Inr r1
                      else
                        (case new_table doc matrix of
                           Inl e \<Rightarrow> Inl e
                         | Inr t \<Rightarrow> Inr (addnext r1 t)))))"

section \<open>Dispatch and the compiler's inner loops\<close>

text \<open>
  \<^verbatim>\<open>globals().get(mod[1:], replace)\<close> looks the modifier's name up among all names of
  the module, not among the handlers only. The table lists what the module's top-level
  statements bind. Calling anything but a handler with five positional arguments
  raises \<open>TypeError\<close>: the modules are not callable and the other functions and classes
  take fewer arguments or reject these. \<^verbatim>\<open>data\<close>, \<^verbatim>\<open>indoc\<close> and \<^verbatim>\<open>outdoc\<close> are
  bound only while the file runs as a script, and are left open. The last entries are
  the attributes that the import system gives every module; none is callable, and no
  modifier of the pattern can name one.
\<close>

datatype global_obj = Handler_replace | Handler_img | Handler_tbl | Not_a_handler | Script_binding

definition module_globals :: "(string \<times> global_obj) list" where
  "module_globals =
     [(''io'', Not_a_handler), (''re'', Not_a_handler), (''Pattern'', Not_a_handler),
      (''Iterable'', Not_a_handler), (''partial'', Not_a_handler), (''Document'', Not_a_handler),
      (''Mm'', Not_a_handler), (''Run'', Not_a_handler), (''Paragraph'', Not_a_handler),
      (''paragraphs'', Not_a_handler), (''table_paragraphs'', Not_a_handler),
      (''domp'', Not_a_handler), (''replace'', Handler_replace), (''img'', Handler_img),
      (''tbl'', Handler_tbl), (''compile_expr'', Not_a_handler), (''compile'', Not_a_handler),
      (''data'', Script_binding), (''indoc'', Script_binding), (''outdoc'', Script_binding),
      (''__name__'', Not_a_handler), (''__doc__'', Not_a_handler), (''__package__'', Not_a_handler),
      (''__loader__'', Not_a_handler), (''__spec__'', Not_a_handler), (''__file__'', Not_a_handler),
      (''__cached__'', Not_a_handler), (''__builtins__'', Not_a_handler)]"

definition globals_get :: "string \<Rightarrow> global_obj \<Rightarrow> global_obj" where
  "globals_get name fallback =
     (case map_of module_globals name of None \<Rightarrow> fallback | Some g \<Rightarrow> g)"

definition call ::
  "string list \<Rightarrow> document \<Rightarrow> global_obj \<Rightarrow> run \<Rightarrow> string \<Rightarrow> string \<Rightarrow> data \<Rightarrow> error + run" where
  "call images doc g r expr modif data =
     (case g of
        Handler_replace \<Rightarrow> replace r expr modif data
      | Handler_img \<Rightarrow> img images r expr modif data
      | Handler_tbl \<Rightarrow> tbl doc r expr modif data
      | Not_a_handler \<Rightarrow> Inl TypeError
      | Script_binding \<Rightarrow> Inl NotModelled)"

definition dispatch ::
  "string list \<Rightarrow> document \<Rightarrow> run \<Rightarrow> string \<Rightarrow> string \<Rightarrow> data \<Rightarrow> error + run" where
  "dispatch images doc r expr modif data =
     call images doc (globals_get (drop 1 modif) Handler_replace) r expr modif data"

text \<open>
  \<^verbatim>\<open>domp\<close>, with the pattern of \<^verbatim>\<open>compile\<close>, its only caller. The inner loop runs over
  the matches found in the run's text before the first handler is called; the outer
  loop runs over the runs. An exception ends the whole compilation.
\<close>

fun run_matches ::
  "string list \<Rightarrow> document \<Rightarrow> data \<Rightarrow> run \<Rightarrow> (string \<times> string) list \<Rightarrow> error + run" where
  "run_matches images doc data r [] = Inr r"
| "run_matches images doc data r ((expr, modif) # ms) =
     (case dispatch images doc r expr modif data of
        Inl e \<Rightarrow> Inl e
      | Inr r' \<Rightarrow> run_matches images doc data r' ms)"

fun domp_runs :: "string list \<Rightarrow> document \<Rightarrow> data \<Rightarrow> run list \<Rightarrow> error + run list" where
  "domp_runs images doc data [] = Inr []"
| "domp_runs images doc data (item # items) =
     (case run_matches images doc data item (findall (run_text item)) of
        Inl e \<Rightarrow> Inl e
      | Inr item' \<Rightarrow>
          (case domp_runs images doc data items of
             Inl e \<Rightarrow> Inl e
           | Inr items' \<Rightarrow> Inr (item' # items')))"

definition domp :: "string list \<Rightarrow> document \<Rightarrow> data \<Rightarrow> para \<Rightarrow> error + para" where
  "domp images doc data p =
     (if \<not> search (paragraph_text p) then Inr p else domp_runs images doc data p)"

section \<open>Notions used in the statements\<close>

text \<open>\<open>occurs old s\<close>: the text \<open>old\<close> stands somewhere in \<open>s\<close>.\<close>

fun occurs :: "string \<Rightarrow> string \<Rightarrow> bool" where
  "occurs old [] = (old = [])"
| "occurs old (c # s) = (prefix old (c # s) \<or> occurs old s)"

text \<open>What a handler writes in the token's place, once the expression has a value.\<close>

definition replacement :: "string \<Rightarrow> pyval \<Rightarrow> string" where
  "replacement modif v =
     (if globals_get (drop 1 modif) Handler_replace = Handler_replace then py_str v else [])"

text \<open>
  The children of a paragraph element in document order: each run, followed by the
  tables spliced in after it.
\<close>

datatype node = Run_node string | Table_node table

definition paragraph_children :: "para \<Rightarrow> node list" where
  "paragraph_children p =
     concat (map (\<lambda>r. Run_node (run_text r) # map Table_node (following r)) p)"

text \<open>The cell that \<open>set_cell_text\<close> leaves for a matrix entry.\<close>

definition text_cell :: "pyval \<Rightarrow> cell" where
  "text_cell v = Cell [[Run (read_back (py_str v)) [] []]] []"

text \<open>
  The paragraphs reachable from a list of tables, in the spec's words: the paragraphs
  of the cells of their columns, and the paragraphs reachable from the tables nested
  in those cells.
\<close>

inductive reachable :: "table list \<Rightarrow> para \<Rightarrow> bool" where
  own: "t \<in> set tables \<Longrightarrow> col < column_count t \<Longrightarrow> c \<in> set (column_cells t col) \<Longrightarrow>
        p \<in> set (cell_paragraphs c) \<Longrightarrow> reachable tables p"
| nested: "t \<in> set tables \<Longrightarrow> col < column_count t \<Longrightarrow> c \<in> set (column_cells t col) \<Longrightarrow>
        reachable (cell_tables c) p \<Longrightarrow> reachable tables p"




text \<open>
  A document for the examples: one section with the page geometry of an A4 sheet, no
  content, and the styles of the library's default template that matter here.
\<close>

definition sample_document :: document where
  "sample_document =
     \<lparr>doc_paragraphs = [], doc_tables = [],
      doc_sections =
        [\<lparr>sec_header = \<lparr>story_paragraphs = [], story_tables = []\<rparr>,
          sec_footer = \<lparr>story_paragraphs = [], story_tables = []\<rparr>,
          page_width = Some 7560310, left_margin = Some 1143000, right_margin = Some 1143000\<rparr>],
      doc_styles = [''Normal'' \<mapsto> Paragraph_style, ''Table Grid'' \<mapsto> Table_style]\<rparr>"

section \<open>Paragraphs without a token\<close>

text \<open>
  Claim C8. A paragraph whose full text, the concatenation of its runs' texts, holds no
  token match is skipped by the compiler: \<open>domp\<close> returns before it looks at any run,
  so the paragraph, and with it the text of every run, is after the call what it was
  before.
\<close>

theorem domp_skips_paragraph_without_token:
  "\<not> search (paragraph_text p) \<Longrightarrow> domp images doc data p = Inr p"
  by (simp add: domp_def)

lemmas char_class_defs =
  expr_char_def word_char_def latin1_word_def ident_char_def lower_char_def upper_char_def
  digit_char_def

theorem domp_skips_paragraph_without_token_witness:
  "\<not> search (paragraph_text [Run ''Dear customer, '' [] [], Run ''mail us @ 9 am!'' [] []]) \<and>
   domp [] sample_document Map.empty
     [Run ''Dear customer, '' [] [], Run ''mail us @ 9 am!'' [] []]
     = Inr [Run ''Dear customer, '' [] [], Run ''mail us @ 9 am!'' [] []]"
proof -
  have h: "\<not> search (paragraph_text [Run ''Dear customer, '' [] [], Run ''mail us @ 9 am!'' [] []])"
    by (simp add: paragraph_text_def match_token_def char_class_defs Let_def)
  from h domp_skips_paragraph_without_token [OF h, of "[]" sample_document Map.empty]
  show ?thesis by simp
qed

text \<open>
  A letter of the Latin-1 range after the marker makes a token, as an ASCII letter does:
  \<^verbatim>\<open>\w\<close> is not restricted to ASCII.
\<close>

lemma latin1_letter_makes_a_token:
  "search [CHR ''@'', CHR 0xE9] \<and> search [CHR ''@'', CHR ''e''] \<and> \<not> search [CHR ''@'', CHR 0xD7]"
  by (simp add: match_token_def char_class_defs Let_def)

section \<open>Name resolution in expressions\<close>







section \<open>Inputs on which the handlers leave their documented behaviour\<close>

text \<open>A modifier that no name of the module matches, the absent one included, does fall back.\<close>

lemma dispatch_falls_back_to_replace:
  "map_of module_globals (drop 1 modif) = None \<Longrightarrow>
   dispatch images doc r expr modif data = replace r expr modif data"
  by (simp add: dispatch_def globals_get_def call_def)

text \<open>
  Claim C1 says that every modifier other than \<^verbatim>\<open>img\<close> and \<^verbatim>\<open>tbl\<close> is handled by
  \<open>replace\<close>, and the comment at the call says that the fallback is \<open>replace\<close>. The
  lookup goes through the names of the whole module, so a modifier that names one of
  its imports or other functions finds that object instead. With the data
  \<^verbatim>\<open>{name: "Ann"}\<close> the run \<^verbatim>\<open>Hello @name!re\<close> makes the compiler call the module
  \<^verbatim>\<open>re\<close>, which raises; the replace handler would have written \<^verbatim>\<open>Hello Ann\<close>.
\<close>

theorem modifier_naming_a_module_global_raises:
  "findall ''Hello @name!re'' = [(''@name'', ''!re'')] \<and>
   dispatch [] doc (Run ''Hello @name!re'' [] []) ''@name'' ''!re'' [''name'' \<mapsto> VStr ''Ann'']
     = Inl TypeError \<and>
   domp [] doc [''name'' \<mapsto> VStr ''Ann''] [Run ''Hello @name!re'' [] []] = Inl TypeError \<and>
   replace (Run ''Hello @name!re'' [] []) ''@name'' ''!re'' [''name'' \<mapsto> VStr ''Ann'']
     = Inr (Run ''Hello Ann'' [] [])"
  by code_simp

text \<open>
  Claim C2 says that an \<^verbatim>\<open>img\<close> or \<^verbatim>\<open>tbl\<close> token whose name the data mapping does not
  bind is erased and nothing else happens. For \<^verbatim>\<open>tbl\<close> that is what the code does.
  For \<^verbatim>\<open>img\<close> the expression text that \<open>compile_expr\<close> returns is a non-empty string,
  so the handler takes it for a path and asks the library to embed the image at
  \<^verbatim>\<open>@photo\<close>: the call raises when no such file can be read, and embeds that file when
  one can.
\<close>

theorem img_unresolved_name_is_used_as_path:
  "compile_expr ''@photo'' Map.empty = Inr (VStr ''@photo'') \<and>
   img [] (Run ''@photo!img'' [] []) ''@photo'' ''!img'' Map.empty = Inl ImageLoadError \<and>
   img [''@photo''] (Run ''@photo!img'' [] []) ''@photo'' ''!img'' Map.empty
     = Inr (Run [] [\<lparr>pic_path = ''@photo'', pic_width = None, pic_height = None\<rparr>] []) \<and>
   tbl doc (Run ''@grid!tbl'' [] []) ''@grid'' ''!tbl'' Map.empty = Inr (Run [] [] [])"
  by code_simp

text \<open>The \<^verbatim>\<open>tbl\<close> half of the claim, for every token: the handler erases and returns.\<close>

lemma tbl_unresolved_name_erases_token:
  assumes "py_eval (strip_braces (drop 1 expr)) data = Inl NameError"
  shows "tbl doc r expr modif data = set_text r (py_replace (run_text r) (expr @ modif) [])"
proof (cases expr)
  case Nil
  with assms show ?thesis by (simp add: tbl_def compile_expr_def split: sum.splits)
next
  case (Cons c cs)
  with assms show ?thesis
    by (simp add: tbl_def compile_expr_def not_matrix_def py_getitem_def py_index_def
        split: sum.splits)
qed

text \<open>
  Claim C4 says that a \<^verbatim>\<open>tbl\<close> value that is truthy and not a list of lists is a
  silent no-op. The guard joins its two tests with \<^verbatim>\<open>and\<close> and subscripts the value
  before it knows that it is a sequence: the number 5 raises in the guard, and the
  list \<^verbatim>\<open>[1, 2]\<close> passes the guard and raises when the length of its first entry is
  taken. The string of the spec's example is the case that does return silently.
\<close>

theorem tbl_value_that_is_no_matrix_raises:
  "tbl doc (Run ''@grid!tbl'' [] []) ''@grid'' ''!tbl'' [''grid'' \<mapsto> VInt 5] = Inl TypeError \<and>
   tbl doc (Run ''@grid!tbl'' [] []) ''@grid'' ''!tbl'' [''grid'' \<mapsto> VList [VInt 1, VInt 2]]
     = Inl TypeError \<and>
   tbl doc (Run ''@grid!tbl'' [] []) ''@grid'' ''!tbl'' [''grid'' \<mapsto> VStr ''not-a-list'']
     = Inr (Run [] [] [])"
  by code_simp

text \<open>
  Claim C5 says that an \<^verbatim>\<open>img\<close> value of any other shape than a path or a triple is
  ignored, a tuple of another arity included. A number and a list reach the final
  \<^verbatim>\<open>return\<close>; a tuple is unpacked into three names whatever its length, so a pair
  raises.
\<close>

theorem img_tuple_of_other_arity_raises:
  "img [''a.png''] (Run ''@photo!img'' [] []) ''@photo'' ''!img''
     [''photo'' \<mapsto> VTuple [VStr ''a.png'', VInt 10]] = Inl ValueError \<and>
   img [''a.png''] (Run ''@photo!img'' [] []) ''@photo'' ''!img'' [''photo'' \<mapsto> VInt 7]
     = Inr (Run [] [] []) \<and>
   img [''a.png''] (Run ''@photo!img'' [] []) ''@photo'' ''!img''
     [''photo'' \<mapsto> VList [VStr ''a.png'', VInt 10, VNone]] = Inr (Run [] [] [])"
  by code_simp

text \<open>
  The halves of the claim that hold: a value is written in its string form wherever the
  scan meets the token, and an unbound name without a modifier leaves the text as it
  is.
\<close>

lemma replace_writes_string_form:
  "compile_expr expr data = Inr v \<Longrightarrow>
   replace r expr modif data = set_text r (py_replace (run_text r) (expr @ modif) (py_str v))"
  by (simp add: replace_def)

lemma replace_scan_by_itself: "old \<noteq> [] \<Longrightarrow> new = old \<Longrightarrow> replace_scan old new s = s"
proof (induction old new s rule: replace_scan.induct)
  case (1 old new)
  show ?case by simp
next
  case (2 old new c s)
  show ?case
  proof (cases "prefix old (c # s)")
    case True
    then obtain zs where zs: "c # s = old @ zs" by (auto simp: prefix_def)
    with "2.prems" have d: "drop (length old - 1) s = zs" by (cases old) auto
    have "replace_scan old new (c # s) = new @ replace_scan old new (drop (length old - 1) s)"
      using True by simp
    also have "\<dots> = old @ zs" using "2.IH"(1) [OF True] "2.prems" d by simp
    finally show ?thesis using zs by simp
  next
    case False
    with "2.IH"(2) "2.prems" show ?thesis by simp
  qed
qed

lemma replace_unresolved_without_modifier:
  assumes "py_eval (strip_braces (drop 1 expr)) data = Inl NameError"
  shows "replace r expr [] data = set_text r (run_text r)"
proof -
  have "py_replace (run_text r) expr expr = run_text r"
    by (cases "expr = []") (simp_all add: py_replace_def replace_scan_by_itself)
  with assms show ?thesis by (simp add: replace_def compile_expr_def py_str_def)
qed

text \<open>
  Claim C6 says that \<open>replace\<close> leaves the run's text unchanged, the token with its
  modifier still in it, when the name is not bound. What \<open>compile_expr\<close> returns then is
  the expression without the modifier, so a token with a modifier loses it:
  \<^verbatim>\<open>@missing!x\<close> becomes \<^verbatim>\<open>@missing\<close>. Without a modifier the text is unchanged.
\<close>

theorem replace_unresolved_name_drops_modifier:
  "findall ''Dear @missing!x'' = [(''@missing'', ''!x'')] \<and>
   domp [] doc Map.empty [Run ''Dear @missing!x'' [] []] = Inr [Run ''Dear @missing'' [] []] \<and>
   replace (Run ''Dear @missing!x'' [] []) ''@missing'' ''!x'' Map.empty
     = Inr (Run ''Dear @missing'' [] []) \<and>
   replace (Run ''Dear @missing'' [] []) ''@missing'' [] Map.empty
     = Inr (Run ''Dear @missing'' [] [])"
  by code_simp

section \<open>A token that stands more than once in a run\<close>

lemma replace_scan_without_occurrence:
  "\<not> occurs old s \<Longrightarrow> replace_scan old new s = s"
  by (induction s) auto

lemma py_replace_without_occurrence:
  "\<not> occurs old s \<Longrightarrow> py_replace s old new = s"
  by (cases "old = []") (auto simp: py_replace_def replace_scan_without_occurrence elim: occurs.elims)

lemma replace_scan_at_occurrence:
  assumes "old \<noteq> []"
  shows "replace_scan old new (old @ rest) = new @ replace_scan old new rest"
proof -
  from assms obtain c t where old: "old = c # t" by (cases old) auto
  then show ?thesis by simp
qed

lemma replace_scan_first_occurrence:
  assumes "old \<noteq> []"
  shows "\<not> occurs old (a @ butlast old) \<Longrightarrow>
    replace_scan old new (a @ old @ rest) = a @ new @ replace_scan old new rest"
proof (induction a)
  case Nil
  show ?case using replace_scan_at_occurrence [OF assms] by simp
next
  case (Cons x a)
  from Cons.prems have np: "\<not> prefix old (x # a @ butlast old)"
    and no: "\<not> occurs old (a @ butlast old)" by simp_all
  have "\<not> prefix old (x # a @ old @ rest)"
  proof
    assume p: "prefix old (x # a @ old @ rest)"
    have "x # a @ old @ rest = (x # a @ butlast old) @ (last old # rest)"
      using assms by simp
    then have q: "prefix (x # a @ butlast old) (x # a @ old @ rest)"
      by (metis prefixI)
    have "length old \<le> length (x # a @ butlast old)" by simp
    from prefix_length_prefix [OF p q this] np show False by simp
  qed
  with Cons.IH [OF no] show ?case by simp
qed

lemma read_back_idem: "read_back (read_back s) = read_back s"
  by (simp add: read_back_def)

lemma set_text_text: "set_text r t = Inr r1 \<Longrightarrow> run_text r1 = read_back t"
  by (auto simp: set_text_def split: if_splits)

lemma replace_text:
  "replace r e m d = Inr r1 \<Longrightarrow>
   \<exists>v. compile_expr e d = Inr v \<and>
       run_text r1 = read_back (py_replace (run_text r) (e @ m) (py_str v))"
  by (auto simp: replace_def dest: set_text_text split: sum.splits)

lemma add_picture_text: "add_picture images r p w h = Inr r1 \<Longrightarrow> run_text r1 = run_text r"
  by (auto simp: add_picture_def split: pyval.splits if_splits option.splits)

lemma img_text:
  assumes "img images r e m d = Inr r1"
  shows "\<exists>v. compile_expr e d = Inr v \<and> run_text r1 = read_back (py_replace (run_text r) (e @ m) [])"
proof -
  from assms obtain r0 where r0: "set_text r (py_replace (run_text r) (e @ m) []) = Inr r0"
    by (auto simp: img_def split: sum.splits)
  from assms r0 obtain v where v: "compile_expr e d = Inr v"
    by (auto simp: img_def split: sum.splits)
  from assms r0 v have "run_text r1 = run_text r0"
    by (auto simp: img_def dest!: add_picture_text
        split: sum.splits if_splits pyval.splits list.splits)
  with set_text_text [OF r0] v show ?thesis by simp
qed

lemma tbl_text:
  assumes "tbl doc r e m d = Inr r1"
  shows "\<exists>v. compile_expr e d = Inr v \<and> run_text r1 = read_back (py_replace (run_text r) (e @ m) [])"
proof -
  from assms obtain r0 where r0: "set_text r (py_replace (run_text r) (e @ m) []) = Inr r0"
    by (auto simp: tbl_def split: sum.splits)
  from assms r0 obtain v where v: "compile_expr e d = Inr v"
    by (auto simp: tbl_def split: sum.splits)
  from assms r0 v have "run_text r1 = run_text r0"
    by (auto simp: tbl_def addnext_def split: sum.splits if_splits)
  with set_text_text [OF r0] v show ?thesis by simp
qed

lemma dispatch_text:
  assumes "dispatch images doc r e m d = Inr r1"
  shows "\<exists>v. compile_expr e d = Inr v \<and>
    run_text r1 = read_back (py_replace (run_text r) (e @ m) (replacement m v))"
proof (cases "globals_get (drop 1 m) Handler_replace")
  case Handler_replace
  with assms replace_text [of r e m d r1] show ?thesis
    by (simp add: dispatch_def call_def replacement_def)
next
  case Handler_img
  with assms img_text [of images r e m d r1] show ?thesis
    by (simp add: dispatch_def call_def replacement_def)
next
  case Handler_tbl
  with assms tbl_text [of doc r e m d r1] show ?thesis
    by (simp add: dispatch_def call_def replacement_def)
next
  case Not_a_handler
  with assms show ?thesis by (simp add: dispatch_def call_def)
next
  case Script_binding
  with assms show ?thesis by (simp add: dispatch_def call_def)
qed

text \<open>
  Claim C10, amended. A handler call that returns has rewritten the run's text in one
  scan from the left that replaces the token wherever the scan meets it, by the string
  form of the value for \<open>replace\<close> and by nothing for \<^verbatim>\<open>img\<close> and \<^verbatim>\<open>tbl\<close>; the text is
  then read with a line feed for every carriage return. In particular, where the
  token stands at two places of the text and nowhere else, both are rewritten by the
  one call. A later call for the same token works on the text that the first one left,
  and changes nothing in it when the token no longer occurs there.
\<close>

theorem repeated_token_rewritten_in_one_pass:
  assumes "dispatch images doc r expr modif data = Inr r1"
  shows "\<exists>v. compile_expr expr data = Inr v \<and>
     run_text r1 = read_back (py_replace (run_text r) (expr @ modif) (replacement modif v)) \<and>
     (\<forall>a b c. run_text r = a @ (expr @ modif) @ b @ (expr @ modif) @ c \<and> expr @ modif \<noteq> [] \<and>
        \<not> occurs (expr @ modif) (a @ butlast (expr @ modif)) \<and>
        \<not> occurs (expr @ modif) (b @ butlast (expr @ modif)) \<and> \<not> occurs (expr @ modif) c
        \<longrightarrow> run_text r1 = read_back (a @ replacement modif v @ b @ replacement modif v @ c)) \<and>
     (\<forall>r2. \<not> occurs (expr @ modif) (run_text r1) \<and>
        dispatch images doc r1 expr modif data = Inr r2 \<longrightarrow> run_text r2 = run_text r1)"
proof -
  from dispatch_text [OF assms] obtain v where v: "compile_expr expr data = Inr v"
    and t: "run_text r1 = read_back (py_replace (run_text r) (expr @ modif) (replacement modif v))"
    by blast
  define tok where "tok = expr @ modif"
  define new where "new = replacement modif v"
  have two: "run_text r1 = read_back (a @ new @ b @ new @ c)"
    if "run_text r = a @ tok @ b @ tok @ c" and ne: "tok \<noteq> []"
      and "\<not> occurs tok (a @ butlast tok)" and "\<not> occurs tok (b @ butlast tok)"
      and "\<not> occurs tok c" for a b c
  proof -
    have "replace_scan tok new (a @ tok @ b @ tok @ c) = a @ new @ b @ new @ c"
      using that(3,4,5) replace_scan_first_occurrence [OF ne]
      by (simp add: replace_scan_without_occurrence)
    with t that(1) ne show ?thesis by (simp add: py_replace_def tok_def [symmetric] new_def)
  qed
  have again: "run_text r2 = run_text r1"
    if no: "\<not> occurs (expr @ modif) (run_text r1)"
      and d: "dispatch images doc r1 expr modif data = Inr r2" for r2
  proof -
    from dispatch_text [OF d] obtain w
      where "run_text r2 = read_back (py_replace (run_text r1) (expr @ modif) (replacement modif w))"
      by blast
    with no have "run_text r2 = read_back (run_text r1)"
      by (simp add: py_replace_without_occurrence)
    with t show ?thesis by (simp add: read_back_idem)
  qed
  from v t two again show ?thesis unfolding tok_def new_def by blast
qed

theorem repeated_token_rewritten_in_one_pass_witness:
  "dispatch [] sample_document (Run ''@a and @a'' [] []) ''@a'' [] [''a'' \<mapsto> VStr ''X'']
     = Inr (Run ''X and X'' [] []) \<and>
   \<not> occurs ''@a'' (butlast ''@a'') \<and> \<not> occurs ''@a'' ('' and '' @ butlast ''@a'') \<and>
   \<not> occurs ''@a'' [] \<and> \<not> occurs ''@a'' ''X and X'' \<and>
   (\<exists>v. compile_expr ''@a'' [''a'' \<mapsto> VStr ''X''] = Inr v \<and>
      ''X and X'' = read_back ([] @ replacement [] v @ '' and '' @ replacement [] v @ []))"
proof -
  let ?d = "[''a'' \<mapsto> VStr ''X'']"
  have h: "dispatch [] sample_document (Run ''@a and @a'' [] []) ''@a'' [] ?d
      = Inr (Run ''X and X'' [] [])"
    by code_simp
  have o: "\<not> occurs ''@a'' (butlast ''@a'')" "\<not> occurs ''@a'' ('' and '' @ butlast ''@a'')"
    "\<not> occurs ''@a'' []" "\<not> occurs ''@a'' ''X and X''"
    by simp_all
  from repeated_token_rewritten_in_one_pass [OF h] obtain v
    where v: "compile_expr ''@a'' ?d = Inr v"
      and two: "\<forall>a b c. run_text (Run ''@a and @a'' [] []) = a @ (''@a'' @ []) @ b @ (''@a'' @ []) @ c \<and>
          ''@a'' @ [] \<noteq> [] \<and> \<not> occurs (''@a'' @ []) (a @ butlast (''@a'' @ [])) \<and>
          \<not> occurs (''@a'' @ []) (b @ butlast (''@a'' @ [])) \<and> \<not> occurs (''@a'' @ []) c
          \<longrightarrow> run_text (Run ''X and X'' [] []) =
              read_back (a @ replacement [] v @ b @ replacement [] v @ c)"
    by blast
  from two [rule_format, of "[]" "'' and ''" "[]"] o
  have "''X and X'' = read_back ([] @ replacement [] v @ '' and '' @ replacement [] v @ [])"
    by simp
  with h o v show ?thesis by blast
qed

text \<open>
  Claim C10 says that the first handler call for a token that stands more than once in
  a run rewrites every occurrence, and that the later calls for the same token then
  work on a text from which the token is gone. The first half holds. The second does
  not when the replacement brings the token back: with the name unbound the replace
  handler writes the expression text itself, so after the first call for \<^verbatim>\<open>@m\<close> the
  text \<^verbatim>\<open>@m @m\<close> still holds the token at both places.
\<close>

theorem repeated_token_still_present:
  "findall ''@m @m'' = [(''@m'', []), (''@m'', [])] \<and>
   dispatch [] sample_document (Run ''@m @m'' [] []) ''@m'' [] Map.empty
     = Inr (Run ''@m @m'' [] []) \<and>
   occurs ''@m'' ''@m @m''"
  by code_simp

section \<open>Expansion of a matrix into a table\<close>

lemma fill_row_cells:
  "cidx + ridx * n + length cs \<le> length grid \<Longrightarrow> list_all (\<lambda>v. xml_text (py_str v)) cs \<Longrightarrow>
   fill_row (Table st n grid) ridx cidx cs =
     Inr (Table st n (take (cidx + ridx * n) grid @ map text_cell cs @
                      drop (cidx + ridx * n + length cs) grid))"
proof (induction cs arbitrary: cidx grid)
  case Nil
  then show ?case by simp
next
  case (Cons c cs)
  let ?i = "cidx + ridx * n"
  from Cons.prems have i: "?i < length grid" by simp
  from Cons.prems have ok: "xml_text (py_str c)" and rest: "list_all (\<lambda>v. xml_text (py_str v)) cs"
    by simp_all
  let ?grid = "grid[?i := text_cell c]"
  have step: "set_cell_text (Table st n grid) ridx cidx (py_str c) = Inr (Table st n ?grid)"
    using i ok by (simp add: set_cell_text_def text_cell_def)
  have len: "Suc cidx + ridx * n + length cs \<le> length ?grid" using Cons.prems by simp
  have "take (Suc ?i) ?grid = take ?i grid @ [text_cell c]"
    using i by (simp add: take_Suc_conv_app_nth)
  moreover have "drop (Suc ?i + length cs) ?grid = drop (?i + length (c # cs)) grid"
    by simp
  ultimately show ?case
    using step Cons.IH [OF len rest] by simp
qed

lemma fill_rows_cells:
  "\<forall>row \<in> set rows. length row = n \<Longrightarrow> length grid = (ridx + length rows) * n \<Longrightarrow>
   list_all (\<lambda>v. xml_text (py_str v)) (concat rows) \<Longrightarrow>
   fill_rows (Table st n grid) ridx (map VList rows) =
     Inr (Table st n (take (ridx * n) grid @ map text_cell (concat rows)))"
proof (induction rows arbitrary: ridx grid)
  case Nil
  then show ?case by simp
next
  case (Cons row rows)
  from Cons.prems have n: "length row = n" and rest: "\<forall>row \<in> set rows. length row = n"
    by simp_all
  from Cons.prems(3) have ok: "list_all (\<lambda>v. xml_text (py_str v)) row"
    and oks: "list_all (\<lambda>v. xml_text (py_str v)) (concat rows)"
    by simp_all
  let ?grid = "take (ridx * n) grid @ map text_cell row @ drop (ridx * n + n) grid"
  have bound: "0 + ridx * n + length row \<le> length grid"
    using Cons.prems(2) n by (simp add: algebra_simps)
  have row: "fill_row (Table st n grid) ridx 0 row = Inr (Table st n ?grid)"
    using fill_row_cells [OF bound ok, of st] n by simp
  have len: "length ?grid = (Suc ridx + length rows) * n"
    using Cons.prems(2) n by (simp add: algebra_simps)
  have "take (Suc ridx * n) ?grid = take (ridx * n) grid @ map text_cell row"
    using Cons.prems(2) n by (simp add: algebra_simps)
  with row Cons.IH [OF rest len oks] show ?case
    by (simp add: py_iter_def)
qed

lemma length_concat_rows:
  "\<forall>row \<in> set rows. length row = n \<Longrightarrow> length (concat rows) = length rows * n"
  by (induction rows) auto

lemma concat_rows_nth:
  "\<forall>row \<in> set rows. length row = n \<Longrightarrow> i < length rows \<Longrightarrow> j < n \<Longrightarrow>
   concat rows ! (j + i * n) = rows ! i ! j"
proof (induction rows arbitrary: i)
  case Nil
  then show ?case by simp
next
  case (Cons row rows)
  show ?case
  proof (cases i)
    case 0
    with Cons.prems show ?thesis by (simp add: nth_append)
  next
    case (Suc k)
    with Cons.prems have "concat rows ! (j + k * n) = rows ! k ! j"
      by (intro Cons.IH) simp_all
    with Suc Cons.prems show ?thesis by (simp add: nth_append)
  qed
qed

lemma set_replace_scan_erase: "new = [] \<Longrightarrow> set (replace_scan old new s) \<subseteq> set s"
proof (induction old new s rule: replace_scan.induct)
  case (1 old new)
  show ?case by simp
next
  case (2 old new c s)
  show ?case
  proof (cases "prefix old (c # s)")
    case True
    from "2.IH"(1) [OF True "2.prems"]
    have "set (replace_scan old new (drop (length old - 1) s)) \<subseteq> set s"
      using set_drop_subset [of "length old - 1" s] by blast
    with True "2.prems" show ?thesis by auto
  next
    case False
    with "2.IH"(2) "2.prems" show ?thesis by auto
  qed
qed

lemma xml_text_erase: "xml_text s \<Longrightarrow> xml_text (py_replace s old [])"
proof (cases "old = []")
  case True
  assume "xml_text s"
  moreover have "concat (map (\<lambda>c. [c]) s) = s" by (induction s) simp_all
  ultimately show ?thesis using True by (simp add: py_replace_def)
next
  case False
  assume "xml_text s"
  with set_replace_scan_erase [of "[]" old s] False show ?thesis
    by (auto simp: py_replace_def xml_text_def list_all_iff)
qed

text \<open>
  Claim C9 says that the new table is spliced into the document after the run's
  paragraph. The code makes the table the next sibling of the run element, which is a
  child of the paragraph: a later run of the same paragraph comes after the table.
\<close>

theorem table_is_spliced_inside_the_paragraph:
  "domp [] sample_document
     [''grid'' \<mapsto> VList [VList [VInt 1, VInt 2], VList [VInt 3, VInt 4]]]
     [Run ''See @grid!tbl'' [] [], Run '' below.'' [] []]
   = Inr [Run ''See '' [] [Table (Some ''Table Grid'') 2
            [Cell [[Run ''1'' [] []]] [], Cell [[Run ''2'' [] []]] [],
             Cell [[Run ''3'' [] []]] [], Cell [[Run ''4'' [] []]] []]],
          Run '' below.'' [] []] \<and>
   paragraph_children
     [Run ''See '' [] [Table (Some ''Table Grid'') 2
            [Cell [[Run ''1'' [] []]] [], Cell [[Run ''2'' [] []]] [],
             Cell [[Run ''3'' [] []]] [], Cell [[Run ''4'' [] []]] []]],
      Run '' below.'' [] []]
   = [Run_node ''See '',
      Table_node (Table (Some ''Table Grid'') 2
            [Cell [[Run ''1'' [] []]] [], Cell [[Run ''2'' [] []]] [],
             Cell [[Run ''3'' [] []]] [], Cell [[Run ''4'' [] []]] []]),
      Run_node '' below.'']"
  by code_simp

text \<open>
  Without the grid style among the document's styles, or without a section to take
  the page geometry from, the handler raises after it has erased the token.
\<close>

lemma tbl_raises_without_style_or_section:
  "tbl (sample_document\<lparr>doc_styles := Map.empty\<rparr>) (Run ''@grid!tbl'' [] []) ''@grid'' ''!tbl''
     [''grid'' \<mapsto> VList [VList [VInt 1]]] = Inl KeyError \<and>
   tbl (sample_document\<lparr>doc_sections := []\<rparr>) (Run ''@grid!tbl'' [] []) ''@grid'' ''!tbl''
     [''grid'' \<mapsto> VList [VList [VInt 1]]] = Inl IndexError"
  by code_simp

text \<open>
  Claim C9, amended. Let the value be a non-empty list of lists, all as long as the
  first; let the document have a last section that gives the page width and the side
  margins, and a table style named \<^verbatim>\<open>Table Grid\<close>; and let neither the run's text nor
  the string form of a matrix entry hold a control character that the file format
  refuses. Then the handler erases the token from the run's text and creates a table
  in the grid style with as many columns as the first row has entries and one row per
  row of the matrix; the cell in row \<open>i\<close> and column \<open>j\<close> holds one paragraph of one run
  whose text is the string form of entry \<open>j\<close> of row \<open>i\<close>, read with a line feed for
  every carriage return. The table is made the next sibling of the run: it stands
  immediately after the run, inside the run's paragraph and before whatever followed
  the run. Where the document lacks the section or the style, or a text holds such a
  control character, the library raises instead.
\<close>

theorem tbl_inserts_table_after_run:
  assumes "compile_expr expr data = Inr (VList (map VList rows))"
    and "rows \<noteq> []" and "list_all (\<lambda>row. length row = length (hd rows)) rows"
    and "block_width doc = Inr w" and "doc_styles doc ''Table Grid'' = Some Table_style"
    and "xml_text (run_text r)" and "list_all (\<lambda>v. xml_text (py_str v)) (concat rows)"
  shows "tbl doc r expr modif data =
     Inr (Run (read_back (py_replace (run_text r) (expr @ modif) [])) []
            (Table (Some ''Table Grid'') (length (hd rows)) (map text_cell (concat rows))
             # following r)) \<and>
     length (map text_cell (concat rows)) = length rows * length (hd rows) \<and>
     (\<forall>i j. i < length rows \<and> j < length (hd rows) \<longrightarrow>
        map text_cell (concat rows) ! (j + i * length (hd rows)) = text_cell (rows ! i ! j))"
proof -
  from assms(3) have rect: "\<forall>row \<in> set rows. length row = length (hd rows)"
    by (simp add: list_all_iff)
  from assms(2) obtain row0 rest where rows: "rows = row0 # rest" by (cases rows) auto
  have erased: "set_text r (py_replace (run_text r) (expr @ modif) []) =
      Inr (Run (read_back (py_replace (run_text r) (expr @ modif) [])) [] (following r))"
    using xml_text_erase [OF assms(6)] by (simp add: set_text_def)
  have t: "truthy (VList (map VList rows))" using assms(2) by simp
  have g: "not_matrix (VList (map VList rows)) = Inr False" by (simp add: not_matrix_def)
  have f: "py_getitem (VList (map VList rows)) (SInt 0) = Inr (VList (hd rows))"
    using rows by (simp add: py_getitem_def py_index_def)
  have fr: "fill_rows (Table (Some ''Table Grid'') (length (hd rows))
        (replicate (length rows * length (hd rows)) (Cell [[]] []))) 0 (map VList rows)
      = Inr (Table (Some ''Table Grid'') (length (hd rows)) (map text_cell (concat rows)))"
    using fill_rows_cells [OF rect _ assms(7), where ridx = 0 and st = "Some ''Table Grid''"
        and grid = "replicate (length rows * length (hd rows)) (Cell [[]] [])"]
    by simp
  have "new_table doc (VList (map VList rows)) =
      Inr (Table (Some ''Table Grid'') (length (hd rows)) (map text_cell (concat rows)))"
    using fr assms(4,5)
    by (simp add: new_table_def py_len_def f py_iter_def add_table_def set_style_def)
  with t g assms(1) erased have run: "tbl doc r expr modif data =
     Inr (Run (read_back (py_replace (run_text r) (expr @ modif) [])) []
            (Table (Some ''Table Grid'') (length (hd rows)) (map text_cell (concat rows))
             # following r))"
    by (simp add: tbl_def addnext_def)
  have len: "length (concat rows) = length rows * length (hd rows)"
    using rect by (rule length_concat_rows)
  have entry: "map text_cell (concat rows) ! (j + i * length (hd rows)) = text_cell (rows ! i ! j)"
    if "i < length rows" and "j < length (hd rows)" for i j
  proof -
    have "j + i * length (hd rows) < length rows * length (hd rows)"
    proof -
      have "j + i * length (hd rows) < Suc i * length (hd rows)" using that(2) by simp
      also have "\<dots> \<le> length rows * length (hd rows)"
        using that(1) by (intro mult_le_mono1) simp
      finally show ?thesis .
    qed
    with len concat_rows_nth [OF rect that] show ?thesis by simp
  qed
  from run len entry show ?thesis by simp
qed

theorem tbl_inserts_table_after_run_witness:
  "compile_expr ''@grid'' [''grid'' \<mapsto> VList (map VList [[VInt 1, VInt 2], [VInt 3, VInt 4]])]
     = Inr (VList (map VList [[VInt 1, VInt 2], [VInt 3, VInt 4]])) \<and>
   list_all (\<lambda>row. length row = length (hd [[VInt 1, VInt 2], [VInt 3, VInt 4]]))
     [[VInt 1, VInt 2], [VInt 3, VInt 4]] \<and>
   block_width sample_document = Inr 5274310 \<and>
   doc_styles sample_document ''Table Grid'' = Some Table_style \<and>
   xml_text (run_text (Run ''@grid!tbl'' [] [])) \<and>
   list_all (\<lambda>v. xml_text (py_str v)) (concat [[VInt 1, VInt 2], [VInt 3, VInt 4]]) \<and>
   tbl sample_document (Run ''@grid!tbl'' [] []) ''@grid'' ''!tbl''
     [''grid'' \<mapsto> VList (map VList [[VInt 1, VInt 2], [VInt 3, VInt 4]])]
   = Inr (Run [] [] [Table (Some ''Table Grid'') 2
            [Cell [[Run ''1'' [] []]] [], Cell [[Run ''2'' [] []]] [],
             Cell [[Run ''3'' [] []]] [], Cell [[Run ''4'' [] []]] []]])"
proof -
  let ?rows = "[[VInt 1, VInt 2], [VInt 3, VInt 4]]"
  let ?d = "[''grid'' \<mapsto> VList (map VList ?rows)]"
  have a: "compile_expr ''@grid'' ?d = Inr (VList (map VList ?rows))" by code_simp
  have b: "?rows \<noteq> []" by simp
  have c: "list_all (\<lambda>row. length row = length (hd ?rows)) ?rows" by simp
  have w: "block_width sample_document = Inr 5274310" by code_simp
  have s: "doc_styles sample_document ''Table Grid'' = Some Table_style" by code_simp
  have x: "xml_text (run_text (Run ''@grid!tbl'' [] []))" by code_simp
  have y: "list_all (\<lambda>v. xml_text (py_str v)) (concat ?rows)" by code_simp
  have e: "read_back (py_replace (run_text (Run ''@grid!tbl'' [] [])) (''@grid'' @ ''!tbl'') []) = []"
    by code_simp
  have f: "map text_cell (concat ?rows) =
      [Cell [[Run ''1'' [] []]] [], Cell [[Run ''2'' [] []]] [],
       Cell [[Run ''3'' [] []]] [], Cell [[Run ''4'' [] []]] []]"
    by code_simp
  from tbl_inserts_table_after_run [OF a b c w s x y, of "''!tbl''"]
  have "tbl sample_document (Run ''@grid!tbl'' [] []) ''@grid'' ''!tbl'' ?d =
      Inr (Run (read_back (py_replace (run_text (Run ''@grid!tbl'' [] [])) (''@grid'' @ ''!tbl'') [])) []
            (Table (Some ''Table Grid'') (length (hd ?rows)) (map text_cell (concat ?rows))
             # following (Run ''@grid!tbl'' [] [])))"
    by blast
  then have "tbl sample_document (Run ''@grid!tbl'' [] []) ''@grid'' ''!tbl'' ?d =
      Inr (Run [] [] [Table (Some ''Table Grid'') 2
            [Cell [[Run ''1'' [] []]] [], Cell [[Run ''2'' [] []]] [],
             Cell [[Run ''3'' [] []]] [], Cell [[Run ''4'' [] []]] []]])"
    unfolding e f by simp
  with a c w s x y show ?thesis by blast
qed

section \<open>The order of the walk\<close>

lemma in_table_paragraphs:
  "p \<in> set (table_paragraphs tables) \<longleftrightarrow>
     (\<exists>t \<in> set tables. \<exists>col < column_count t. \<exists>c \<in> set (column_cells t col).
        p \<in> set (cell_paragraphs c) \<or> p \<in> set (table_paragraphs (cell_tables c)))"
proof -
  have "p \<in> set (table_paragraphs tables) \<longleftrightarrow>
     (\<exists>t \<in> set tables. \<exists>col \<in> set [0..<column_count t]. \<exists>c \<in> set (column_cells t col).
        p \<in> set (cell_paragraphs c @ table_paragraphs (cell_tables c)))"
    by (subst table_paragraphs.simps) simp
  also have "\<dots> \<longleftrightarrow>
     (\<exists>t \<in> set tables. \<exists>col < column_count t. \<exists>c \<in> set (column_cells t col).
        p \<in> set (cell_paragraphs c) \<or> p \<in> set (table_paragraphs (cell_tables c)))"
    by (simp add: Bex_def)
  finally show ?thesis .
qed

lemma walked_is_reachable: "p \<in> set (table_paragraphs tables) \<Longrightarrow> reachable tables p"
proof (induction tables arbitrary: p rule: table_paragraphs.induct)
  case (1 tables)
  from "1.prems" obtain t col c where t: "t \<in> set tables" and col: "col < column_count t"
    and c: "c \<in> set (column_cells t col)"
    and p: "p \<in> set (cell_paragraphs c) \<or> p \<in> set (table_paragraphs (cell_tables c))"
    unfolding in_table_paragraphs [of p tables] by blast
  from p show ?case
  proof
    assume "p \<in> set (cell_paragraphs c)"
    with t col c show ?thesis by (rule reachable.own)
  next
    assume q: "p \<in> set (table_paragraphs (cell_tables c))"
    from col have "col \<in> set [0..<column_count t]" by simp
    from "1.IH" [OF t this c q] have "reachable (cell_tables c) p" .
    with t col c show ?thesis by (rule reachable.nested)
  qed
qed

lemma reachable_is_walked: "reachable tables p \<Longrightarrow> p \<in> set (table_paragraphs tables)"
proof (induction rule: reachable.induct)
  case (own t tables col c p)
  then show ?case unfolding in_table_paragraphs [of p tables] by blast
next
  case (nested t tables col c p)
  then show ?case unfolding in_table_paragraphs [of p tables] by blast
qed

lemma table_paragraphs_Nil: "table_paragraphs [] = []"
  by (subst table_paragraphs.simps) simp

lemma table_paragraphs_Cons:
  "table_paragraphs (t # tables) =
     concat (map (\<lambda>col.
         concat (map (\<lambda>c. cell_paragraphs c @ table_paragraphs (cell_tables c))
           (column_cells t col)))
         [0..<column_count t]) @ table_paragraphs tables"
  by (subst table_paragraphs.simps, subst (3) table_paragraphs.simps) simp

lemma column_cells_of_grid:
  assumes "length (cells t) = m * column_count t" and "col < column_count t"
  shows "column_cells t col = map (\<lambda>row. cells t ! (col + row * column_count t)) [0..<m]"
proof -
  let ?n = "column_count t"
  from assms(2) have n: "0 < ?n" by simp
  have "(m * ?n - col + ?n - 1) div ?n = m"
  proof (cases m)
    case 0
    with n show ?thesis by simp
  next
    case (Suc k)
    then have "m * ?n - col + ?n - 1 = m * ?n + (?n - 1 - col)"
      using assms(2) by (simp add: algebra_simps)
    moreover have "?n - 1 - col < ?n" using n by simp
    ultimately show ?thesis using n by simp
  qed
  with assms(1) show ?thesis by (simp add: column_cells_def py_range_def comp_def)
qed

text \<open>
  Claim C7 speaks of every document. A document without a section is walked through
  its body and its body tables, and then the walker raises: it reads the first section
  before it yields anything of a header or a footer, and the traversal does not end
  normally.
\<close>

theorem walk_of_document_without_section_raises:
  "paragraphs
     \<lparr>doc_paragraphs = [[Run ''body'' [] []]],
      doc_tables = [Table None 1 [Cell [[Run ''cell'' [] []]] []]],
      doc_sections = [], doc_styles = Map.empty\<rparr>
   = ([[Run ''body'' [] []], [Run ''cell'' [] []]], Some IndexError)"
  by (simp add: paragraphs_def table_paragraphs_Nil table_paragraphs_Cons column_cells_def
      py_range_def upt_conv_Cons)

text \<open>
  Claim C7, amended. For a document with at least one section, the walker yields, in
  this order, the body paragraphs, the paragraphs of the body tables, the first
  section's header paragraphs and header-table paragraphs, and its footer paragraphs
  and footer-table paragraphs, and then ends without an exception; what it yields is
  exactly what is reachable from the body, the body tables and the first section's
  header and footer. For a document without a section it yields the body paragraphs
  and the paragraphs of the body tables and then raises \<^verbatim>\<open>IndexError\<close>. Tables are
  walked in order; in a table the columns are walked from the left, and in a column of
  a grid of \<open>m\<close> rows the cells from the top; a cell yields its own paragraphs, then
  those of its nested tables, and then the next cell follows. What is yielded from a
  list of tables is exactly what is reachable from it. \<open>table_paragraphs\<close> is a total
  function, by the termination proof of its definition: the walk of the tables ends
  on every document, however deep the nesting.
\<close>

theorem paragraphs_walk_order:
  "(\<forall>s ss. doc_sections d = s # ss \<longrightarrow>
      paragraphs d =
        (doc_paragraphs d @ table_paragraphs (doc_tables d) @
         story_paragraphs (sec_header s) @ table_paragraphs (story_tables (sec_header s)) @
         story_paragraphs (sec_footer s) @ table_paragraphs (story_tables (sec_footer s)), None) \<and>
      (\<forall>p. p \<in> set (fst (paragraphs d)) \<longleftrightarrow>
         p \<in> set (doc_paragraphs d) \<or> reachable (doc_tables d) p \<or>
         p \<in> set (story_paragraphs (sec_header s)) \<or> reachable (story_tables (sec_header s)) p \<or>
         p \<in> set (story_paragraphs (sec_footer s)) \<or> reachable (story_tables (sec_footer s)) p)) \<and>
   (doc_sections d = [] \<longrightarrow>
      paragraphs d = (doc_paragraphs d @ table_paragraphs (doc_tables d), Some IndexError)) \<and>
   table_paragraphs [] = [] \<and>
   (\<forall>t ts. table_paragraphs (t # ts) =
      concat (map (\<lambda>col.
        concat (map (\<lambda>c. cell_paragraphs c @ table_paragraphs (cell_tables c))
          (column_cells t col)))
        [0..<column_count t]) @ table_paragraphs ts) \<and>
   (\<forall>t m col. length (cells t) = m * column_count t \<and> col < column_count t \<longrightarrow>
      column_cells t col = map (\<lambda>row. cells t ! (col + row * column_count t)) [0..<m]) \<and>
   (\<forall>ts p. p \<in> set (table_paragraphs ts) \<longleftrightarrow> reachable ts p)"
proof -
  have reach: "p \<in> set (table_paragraphs ts) \<longleftrightarrow> reachable ts p" for ts p
    using walked_is_reachable reachable_is_walked by blast
  have order: "paragraphs d =
      (doc_paragraphs d @ table_paragraphs (doc_tables d) @
       story_paragraphs (sec_header s) @ table_paragraphs (story_tables (sec_header s)) @
       story_paragraphs (sec_footer s) @ table_paragraphs (story_tables (sec_footer s)), None)"
    if "doc_sections d = s # ss" for s ss
    using that by (simp add: paragraphs_def)
  have exact: "p \<in> set (fst (paragraphs d)) \<longleftrightarrow>
        p \<in> set (doc_paragraphs d) \<or> reachable (doc_tables d) p \<or>
        p \<in> set (story_paragraphs (sec_header s)) \<or> reachable (story_tables (sec_header s)) p \<or>
        p \<in> set (story_paragraphs (sec_footer s)) \<or> reachable (story_tables (sec_footer s)) p"
    if "doc_sections d = s # ss" for s ss p
    unfolding order [OF that] by (simp add: reach)
  have none: "paragraphs d = (doc_paragraphs d @ table_paragraphs (doc_tables d), Some IndexError)"
    if "doc_sections d = []"
    using that by (simp add: paragraphs_def)
  from order exact none table_paragraphs_Nil table_paragraphs_Cons column_cells_of_grid reach
  show ?thesis by blast
qed

theorem paragraphs_walk_order_witness:
  "doc_sections
     \<lparr>doc_paragraphs = [[Run ''body'' [] []]],
      doc_tables =
        [Table None 2
           [Cell [[Run ''r0c0'' [] []]] [Table None 1 [Cell [[Run ''nested'' [] []]] []]],
            Cell [[Run ''r0c1'' [] []]] [],
            Cell [[Run ''r1c0'' [] []]] [],
            Cell [[Run ''r1c1'' [] []]] []]],
      doc_sections =
        [\<lparr>sec_header = \<lparr>story_paragraphs = [[Run ''head'' [] []]], story_tables = []\<rparr>,
          sec_footer = \<lparr>story_paragraphs = [[Run ''foot'' [] []]], story_tables = []\<rparr>,
          page_width = None, left_margin = None, right_margin = None\<rparr>],
      doc_styles = Map.empty\<rparr>
   = [\<lparr>sec_header = \<lparr>story_paragraphs = [[Run ''head'' [] []]], story_tables = []\<rparr>,
       sec_footer = \<lparr>story_paragraphs = [[Run ''foot'' [] []]], story_tables = []\<rparr>,
       page_width = None, left_margin = None, right_margin = None\<rparr>] \<and>
   paragraphs
     \<lparr>doc_paragraphs = [[Run ''body'' [] []]],
      doc_tables =
        [Table None 2
           [Cell [[Run ''r0c0'' [] []]] [Table None 1 [Cell [[Run ''nested'' [] []]] []]],
            Cell [[Run ''r0c1'' [] []]] [],
            Cell [[Run ''r1c0'' [] []]] [],
            Cell [[Run ''r1c1'' [] []]] []]],
      doc_sections =
        [\<lparr>sec_header = \<lparr>story_paragraphs = [[Run ''head'' [] []]], story_tables = []\<rparr>,
          sec_footer = \<lparr>story_paragraphs = [[Run ''foot'' [] []]], story_tables = []\<rparr>,
          page_width = None, left_margin = None, right_margin = None\<rparr>],
      doc_styles = Map.empty\<rparr>
   = ([[Run ''body'' [] []], [Run ''r0c0'' [] []], [Run ''nested'' [] []], [Run ''r1c0'' [] []],
       [Run ''r0c1'' [] []], [Run ''r1c1'' [] []], [Run ''head'' [] []], [Run ''foot'' [] []]],
      None)"
proof -
  let ?s = "\<lparr>sec_header = \<lparr>story_paragraphs = [[Run ''head'' [] []]], story_tables = []\<rparr>,
       sec_footer = \<lparr>story_paragraphs = [[Run ''foot'' [] []]], story_tables = []\<rparr>,
       page_width = None, left_margin = None, right_margin = None\<rparr>"
  let ?d = "\<lparr>doc_paragraphs = [[Run ''body'' [] []]],
      doc_tables =
        [Table None 2
           [Cell [[Run ''r0c0'' [] []]] [Table None 1 [Cell [[Run ''nested'' [] []]] []]],
            Cell [[Run ''r0c1'' [] []]] [],
            Cell [[Run ''r1c0'' [] []]] [],
            Cell [[Run ''r1c1'' [] []]] []]],
      doc_sections = [?s],
      doc_styles = Map.empty\<rparr>"
  have h: "doc_sections ?d = ?s # []" by simp
  from paragraphs_walk_order [of ?d] h
  have "paragraphs ?d =
      (doc_paragraphs ?d @ table_paragraphs (doc_tables ?d) @
       story_paragraphs (sec_header ?s) @ table_paragraphs (story_tables (sec_header ?s)) @
       story_paragraphs (sec_footer ?s) @ table_paragraphs (story_tables (sec_footer ?s)), None)"
    by blast
  also have "\<dots> =
     ([[Run ''body'' [] []], [Run ''r0c0'' [] []], [Run ''nested'' [] []], [Run ''r1c0'' [] []],
       [Run ''r0c1'' [] []], [Run ''r1c1'' [] []], [Run ''head'' [] []], [Run ''foot'' [] []]],
      None)"
    by (simp add: table_paragraphs_Nil table_paragraphs_Cons column_cells_def py_range_def
        upt_conv_Cons)
  finally show ?thesis by simp
qed

end
